theory Spec2Isabelle
  imports Main "HOL-Library.Sublist" "HOL-Library.AList" "HOL-Library.Multiset"
begin

section \<open>Python values and the operations the scraper applies to them\<close>

text \<open>
  The scraper (\<^verbatim>\<open>sx25.py\<close>) works on whatever \<^verbatim>\<open>response.json()\<close> returns,
  without checking its shape.  A parsed document is a value of \<open>json\<close>; an object is the
  association list of its members (a parsed dictionary, so keys are looked up with
  \<open>map_of\<close>).  Numbers are integers: no decision below depends on a fractional number.
  An operation that Python rejects on the given kind of value returns the exception as
  \<open>Inl\<close>.
\<close>

datatype json =
    JNull
  | JBool bool
  | JNum int
  | JStr string
  | JArr "json list"
  | JObj "(string \<times> json) list"

datatype pyerr = TypeError | AttributeError | KeyError | ZeroDivisionError | IndexError

text \<open>Sequencing of computations that may raise.\<close>

definition ebind :: "'e + 'a \<Rightarrow> ('a \<Rightarrow> 'e + 'b) \<Rightarrow> 'e + 'b" where
  "ebind m f = (case m of Inl e \<Rightarrow> Inl e | Inr x \<Rightarrow> f x)"

text \<open>\<^verbatim>\<open>a and b\<close> on conditions that may raise: \<open>b\<close> is evaluated only when \<open>a\<close> holds.\<close>

definition eand :: "'e + bool \<Rightarrow> 'e + bool \<Rightarrow> 'e + bool" where
  "eand a b = ebind a (\<lambda>p. if p then b else Inr False)"

text \<open>Truth value of an object in a condition (\<^verbatim>\<open>if x:\<close>, \<^verbatim>\<open>not x\<close>).\<close>

fun truthy :: "json \<Rightarrow> bool" where
  "truthy JNull = False"
| "truthy (JBool b) = b"
| "truthy (JNum n) = (n \<noteq> 0)"
| "truthy (JStr s) = (s \<noteq> [])"
| "truthy (JArr xs) = (xs \<noteq> [])"
| "truthy (JObj kvs) = (kvs \<noteq> [])"

text \<open>
  \<^verbatim>\<open>k in x\<close> for a string \<open>k\<close>: key membership in a dictionary, element membership in a
  list, substring test on a string, \<^verbatim>\<open>TypeError\<close> on anything else.
\<close>

fun py_in :: "string \<Rightarrow> json \<Rightarrow> pyerr + bool" where
  "py_in k (JObj kvs) = Inr (map_of kvs k \<noteq> None)"
| "py_in k (JArr xs) = Inr (JStr k \<in> set xs)"
| "py_in k (JStr s) = Inr (sublist k s)"
| "py_in k _ = Inl TypeError"

text \<open>\<^verbatim>\<open>x[k]\<close> for a string \<open>k\<close>: only a dictionary can be indexed by a string.\<close>

fun py_index :: "json \<Rightarrow> string \<Rightarrow> pyerr + json" where
  "py_index (JObj kvs) k = (case map_of kvs k of None \<Rightarrow> Inl KeyError | Some v \<Rightarrow> Inr v)"
| "py_index _ k = Inl TypeError"

text \<open>\<^verbatim>\<open>x.get(k, default)\<close>: only a dictionary has the method.\<close>

fun py_get :: "json \<Rightarrow> string \<Rightarrow> json \<Rightarrow> pyerr + json" where
  "py_get (JObj kvs) k dflt = (case map_of kvs k of None \<Rightarrow> Inr dflt | Some v \<Rightarrow> Inr v)"
| "py_get _ k dflt = Inl AttributeError"

text \<open>\<^verbatim>\<open>len(x)\<close>.\<close>

fun py_len :: "json \<Rightarrow> pyerr + nat" where
  "py_len (JObj kvs) = Inr (length kvs)"
| "py_len (JArr xs) = Inr (length xs)"
| "py_len (JStr s) = Inr (length s)"
| "py_len _ = Inl TypeError"

text \<open>
  \<^verbatim>\<open>for r in x\<close>: the elements of a list, the keys of a dictionary, the characters of a
  string (each a string of length one).
\<close>

fun py_iter :: "json \<Rightarrow> pyerr + json list" where
  "py_iter (JArr xs) = Inr xs"
| "py_iter (JObj kvs) = Inr (map (\<lambda>kv. JStr (fst kv)) kvs)"
| "py_iter (JStr s) = Inr (map (\<lambda>c. JStr [c]) s)"
| "py_iter _ = Inl TypeError"

text \<open>
  \<^verbatim>\<open>str.strip()\<close>: the characters Python counts as whitespace, for code points below 256.
\<close>

definition is_space :: "char \<Rightarrow> bool" where
  "is_space c \<longleftrightarrow> c \<in> set [CHR 0x09, CHR 0x0A, CHR 0x0B, CHR 0x0C, CHR 0x0D,
      CHR 0x1C, CHR 0x1D, CHR 0x1E, CHR 0x1F, CHR 0x20, CHR 0x85, CHR 0xA0]"

definition strip :: "string \<Rightarrow> string" where
  "strip s = rev (dropWhile is_space (rev (dropWhile is_space s)))"

section \<open>Session expiry markers in a response body\<close>

text \<open>
  \<^verbatim>\<open>branch.get('status') == 401 or branch.get('error') == 'session_expired'\<close>
\<close>

definition expiry_marker :: "json \<Rightarrow> pyerr + bool" where
  "expiry_marker branch =
     ebind (py_get branch ''status'' JNull) (\<lambda>st.
       if st = JNum 401 then Inr True
       else ebind (py_get branch ''error'' JNull) (\<lambda>er. Inr (er = JStr ''session_expired'')))"

text \<open>\<^verbatim>\<open>is_session_expired(data)\<close>: the branches looked at are \<^verbatim>\<open>apexDomainData\<close> and \<^verbatim>\<open>dnsData\<close>.\<close>

definition is_session_expired :: "json \<Rightarrow> pyerr + bool" where
  "is_session_expired data =
     (if \<not> truthy data then Inr False
      else ebind (py_in ''pageProps'' data) (\<lambda>has_pp.
        if \<not> has_pp then Inr False
        else ebind (py_index data ''pageProps'') (\<lambda>page_props.
          ebind (py_in ''apexDomainData'' page_props) (\<lambda>has_apex.
            ebind (if has_apex
                   then ebind (py_index page_props ''apexDomainData'') expiry_marker
                   else Inr False) (\<lambda>apex_expired.
              if apex_expired then Inr True
              else ebind (py_in ''dnsData'' page_props) (\<lambda>has_dns.
                ebind (if has_dns
                       then ebind (py_index page_props ''dnsData'') expiry_marker
                       else Inr False) (\<lambda>dns_expired.
                  if dns_expired then Inr True else Inr False)))))))"

section \<open>Record extraction\<close>

text \<open>
  The loop body of \<^verbatim>\<open>extract_domains_from_data\<close>:
  \<^verbatim>\<open>hostname = record.get('hostname', '')\<close>, kept when
  \<^verbatim>\<open>hostname and hostname.strip()\<close>.  A true value that is not a string has no
  \<^verbatim>\<open>strip\<close>.
\<close>

fun collect_hostnames :: "json list \<Rightarrow> pyerr + string list" where
  "collect_hostnames [] = Inr []"
| "collect_hostnames (record # rest) =
     ebind (py_get record ''hostname'' (JStr [])) (\<lambda>hostname.
       if \<not> truthy hostname then collect_hostnames rest
       else (case hostname of
               JStr s \<Rightarrow>
                 if strip s \<noteq> [] then ebind (collect_hostnames rest) (\<lambda>ds. Inr (strip s # ds))
                 else collect_hostnames rest
             | _ \<Rightarrow> Inl AttributeError))"

text \<open>\<^verbatim>\<open>b in page_props and 'data' in page_props[b]\<close>\<close>

definition branch_has_data :: "json \<Rightarrow> string \<Rightarrow> pyerr + bool" where
  "branch_has_data page_props b =
     eand (py_in b page_props) (ebind (py_index page_props b) (py_in ''data''))"

text \<open>The block run for the selected branch: its \<^verbatim>\<open>data.records\<close>, when present.\<close>

definition branch_domains :: "json \<Rightarrow> string \<Rightarrow> pyerr + string list" where
  "branch_domains page_props b =
     ebind (py_index page_props b) (\<lambda>branch.
       ebind (py_index branch ''data'') (\<lambda>bdata.
         ebind (py_in ''records'' bdata) (\<lambda>has_records.
           if has_records
           then ebind (py_index bdata ''records'') (\<lambda>records.
                  ebind (py_iter records) collect_hostnames)
           else Inr [])))"

definition extract_domains_from_data :: "json \<Rightarrow> pyerr + string list" where
  "extract_domains_from_data data =
     (if \<not> truthy data then Inr []
      else ebind (py_in ''pageProps'' data) (\<lambda>has_pp.
        if \<not> has_pp then Inr []
        else ebind (py_index data ''pageProps'') (\<lambda>page_props.
          ebind (branch_has_data page_props ''apexDomainData'') (\<lambda>apex.
            if apex then branch_domains page_props ''apexDomainData''
            else ebind (branch_has_data page_props ''serverResponse'') (\<lambda>server.
              if server then branch_domains page_props ''serverResponse''
              else Inr [])))))"

section \<open>Page count and the legitimacy check at the provider ceiling\<close>





section \<open>The network, the credential file and the session\<close>

text \<open>
  What the process cannot decide is input to the model.  The \<open>k\<close>-th HTTP request of a
  run ends as \<open>net w k\<close>: a connection error or read timeout, another
  \<^verbatim>\<open>RequestException\<close>, or a response with a status code and a body that parses as JSON
  or does not.  \<open>cookie_file\<close> is what \<^verbatim>\<open>cookies.json\<close> holds.  \<open>trace\<close> records, in
  order, the requests sent (with the cookies they carry), the reloads started, the sleeps
  (\<open>Backoff\<close> for the announced wait between two discovery attempts, \<open>Sleep\<close> for the
  others) and the calls of the failure archiver.  The User-Agent and the timestamps of the
  maintenance clock do not enter any decision modelled here and are left out.
\<close>

type_synonym cookies = "(string \<times> string) list"

datatype body = NotJson | Json json

datatype http_outcome = ConnectionError | RequestError | Response int body

datatype cookie_file = NotFound | InvalidJson | Unreadable | Entries "(string \<times> string) list"

datatype request_kind = ValidationCall | PageCall int

datatype event =
    Request request_kind cookies
  | ReloadStarted
  | Sleep nat
  | Backoff nat
  | Archive string nat string json

record world =
  net :: "nat \<Rightarrow> http_outcome"
  requests_made :: nat
  cookie_file :: cookie_file
  current_cookies :: "cookies option"
  trace :: "event list"

definition emit :: "event \<Rightarrow> world \<Rightarrow> world" where
  "emit e w = w\<lparr>trace := trace w @ [e]\<rparr>"

definition http_get :: "request_kind \<Rightarrow> cookies \<Rightarrow> world \<Rightarrow> http_outcome \<times> world" where
  "http_get kind c w =
     (net w (requests_made w),
      emit (Request kind c) (w\<lparr>requests_made := Suc (requests_made w)\<rparr>))"

text \<open>
  \<^verbatim>\<open>load_securitytrails_cookie\<close>: the first entry named \<^verbatim>\<open>SecurityTrails\<close>, as a
  one-entry dictionary.  A missing file and invalid JSON return \<^verbatim>\<open>None\<close> at once; any
  other exception is retried twice, two seconds apart, before \<^verbatim>\<open>None\<close>.
\<close>

fun find_cookie :: "(string \<times> string) list \<Rightarrow> cookies option" where
  "find_cookie [] = None"
| "find_cookie ((name, val) # rest) =
     (if name = ''SecurityTrails'' then Some [(name, val)] else find_cookie rest)"

definition load_securitytrails_cookie :: "world \<Rightarrow> cookies option \<times> world" where
  "load_securitytrails_cookie w =
     (case cookie_file w of
        NotFound \<Rightarrow> (None, w)
      | InvalidJson \<Rightarrow> (None, w)
      | Unreadable \<Rightarrow> (None, emit (Sleep 2) (emit (Sleep 2) w))
      | Entries es \<Rightarrow> (find_cookie es, w))"

text \<open>
  \<^verbatim>\<open>validate_session\<close>: one request; any exception of the request is \<^verbatim>\<open>False\<close>, a 401 is
  \<^verbatim>\<open>False\<close>, an expiry marker in a body that parses is \<^verbatim>\<open>False\<close> (an exception while
  looking for it is swallowed), otherwise the session is valid when the status is 200.
\<close>

definition validate_session :: "cookies \<Rightarrow> world \<Rightarrow> bool \<times> world" where
  "validate_session c w =
     (case http_get ValidationCall c w of
        (ConnectionError, w1) \<Rightarrow> (False, w1)
      | (RequestError, w1) \<Rightarrow> (False, w1)
      | (Response status b, w1) \<Rightarrow>
          if status = 401 then (False, w1)
          else (case b of
                  NotJson \<Rightarrow> (status = 200, w1)
                | Json data \<Rightarrow>
                    (case is_session_expired data of
                       Inr True \<Rightarrow> (False, w1)
                     | _ \<Rightarrow> (status = 200, w1))))"

text \<open>
  \<^verbatim>\<open>reload_cookies\<close>: load, then validate; only a validated credential is stored in
  \<^verbatim>\<open>current_cookies\<close> and returned.  \<^verbatim>\<open>if cookies:\<close> holds for a dictionary that is
  not empty.
\<close>

definition reload_cookies :: "world \<Rightarrow> cookies option \<times> world" where
  "reload_cookies w =
     (case load_securitytrails_cookie (emit ReloadStarted w) of
        (None, w1) \<Rightarrow> (None, w1)
      | (Some c, w1) \<Rightarrow>
          if c \<noteq> []
          then (case validate_session c w1 of
                  (True, w2) \<Rightarrow> (Some c, w2\<lparr>current_cookies := Some c\<rparr>)
                | (False, w2) \<Rightarrow> (None, w2))
          else (None, w1))"

section \<open>Fetching one page\<close>

definition valid_resource_types :: "string list" where
  "valid_resource_types =
     [''subdomain'', ''reverse_ip'', ''reverse_mx'', ''reverse_email'', ''reverse_ns'', ''keyword'']"

text \<open>
  The loop \<^verbatim>\<open>for attempt in range(max_retries)\<close> of \<^verbatim>\<open>get_securitytrails_data\<close>, over the
  attempt numbers still to run.  \<^verbatim>\<open>continue\<close> is the call on the rest of the list, and the
  \<^verbatim>\<open>return None\<close> after the loop is the empty list.  A status from 400 to 599 other than 401
  is the \<^verbatim>\<open>HTTPError\<close> of \<^verbatim>\<open>raise_for_status\<close>; a body that does not parse and an
  exception of \<^verbatim>\<open>is_session_expired\<close> end in the handlers that return \<^verbatim>\<open>None\<close>.
\<close>

fun fetch_loop :: "nat list \<Rightarrow> nat \<Rightarrow> int \<Rightarrow> cookies \<Rightarrow> world \<Rightarrow> json option \<times> world" where
  "fetch_loop [] max_retries page cookies_dict w = (None, w)"
| "fetch_loop (attempt # rest) max_retries page cookies_dict w =
     (case http_get (PageCall page) cookies_dict w of
        (ConnectionError, w1) \<Rightarrow>
          if attempt < max_retries - 1
          then fetch_loop rest max_retries page cookies_dict (emit (Sleep 2) w1)
          else (None, w1)
      | (RequestError, w1) \<Rightarrow> (None, w1)
      | (Response status b, w1) \<Rightarrow>
          if status = 401
          then (case reload_cookies w1 of
                  (Some new_cookies, w2) \<Rightarrow>
                    if new_cookies \<noteq> []
                    then fetch_loop rest max_retries page new_cookies w2
                    else (None, w2)
                | (None, w2) \<Rightarrow> (None, w2))
          else if 400 \<le> status \<and> status < 600 then (None, w1)
          else (case b of
                  NotJson \<Rightarrow> (None, w1)
                | Json data \<Rightarrow>
                    (case is_session_expired data of
                       Inl e \<Rightarrow> (None, w1)
                     | Inr True \<Rightarrow>
                         (case reload_cookies w1 of
                            (Some new_cookies, w2) \<Rightarrow>
                              if new_cookies \<noteq> []
                              then fetch_loop rest max_retries page new_cookies w2
                              else (None, w2)
                          | (None, w2) \<Rightarrow> (None, w2))
                     | Inr False \<Rightarrow> (Some data, w1))))"

definition get_securitytrails_data ::
  "string \<Rightarrow> string \<Rightarrow> int \<Rightarrow> cookies \<Rightarrow> string option \<Rightarrow> nat \<Rightarrow> world \<Rightarrow> json option \<times> world" where
  "get_securitytrails_data resource_type resource_value page cookies_dict search_term max_retries w =
     (if resource_type \<notin> set valid_resource_types then (None, w)
      else fetch_loop [0..<max_retries] max_retries page cookies_dict w)"


section \<open>Pagination discovery\<close>






section \<open>Distribution of the work items\<close>

definition work_items_of :: "'r list \<Rightarrow> 't list \<Rightarrow> ('r \<times> 't option) list" where
  "work_items_of resources search_terms =
     (if search_terms \<noteq> []
      then concat (map (\<lambda>resource. map (\<lambda>search_term. (resource, Some search_term)) search_terms)
                       resources)
      else map (\<lambda>resource. (resource, None)) resources)"

text \<open>
  \<^verbatim>\<open>worker_tasks[i % worker_count].append(work_item)\<close> over \<^verbatim>\<open>enumerate(work_items)\<close>.
  The remainder by zero raises; Python's remainder has the sign of the divisor, as \<open>mod\<close>
  on \<open>int\<close> has, and a negative index counts from the end of the list.
\<close>

fun assign_tasks :: "(nat \<times> 'a) list \<Rightarrow> int \<Rightarrow> 'a list list \<Rightarrow> pyerr + 'a list list" where
  "assign_tasks [] worker_count worker_tasks = Inr worker_tasks"
| "assign_tasks ((i, work_item) # rest) worker_count worker_tasks =
     (if worker_count = 0 then Inl ZeroDivisionError
      else (let slot = int i mod worker_count;
                idx = (if slot < 0 then slot + int (length worker_tasks) else slot)
            in if 0 \<le> idx \<and> idx < int (length worker_tasks)
               then assign_tasks rest worker_count
                      (worker_tasks[nat idx := worker_tasks ! nat idx @ [work_item]])
               else Inl IndexError))"

definition distribute_resources_to_workers ::
  "'r list \<Rightarrow> 't list \<Rightarrow> int \<Rightarrow> pyerr + ('r \<times> 't option) list list" where
  "distribute_resources_to_workers resources search_terms worker_count =
     (if resources = [] then Inr []
      else assign_tasks (enumerate 0 (work_items_of resources search_terms)) worker_count
             (replicate (nat worker_count) []))"

section \<open>Collected and saved records\<close>

text \<open>
  \<open>current_domains\<close> and \<open>saved_domains\<close> are the two global sets; \<open>out_file\<close> is the
  text of the output file, character by character, \<open>None\<close> while the file does not exist.
\<close>

abbreviation line_feed :: char where
  "line_feed \<equiv> CHR 0x0A"

abbreviation carriage_return :: char where
  "carriage_return \<equiv> CHR 0x0D"

record store =
  current_domains :: "string set"
  saved_domains :: "string set"
  out_file :: "string option"

definition file_text :: "store \<Rightarrow> string" where
  "file_text s = (case out_file s of None \<Rightarrow> [] | Some t \<Rightarrow> t)"

text \<open>The state of the globals when the module is loaded.\<close>

definition process_start :: "string option \<Rightarrow> store" where
  "process_start f = \<lparr>current_domains = {}, saved_domains = {}, out_file = f\<rparr>"

text \<open>
  Reading a file in text mode: a carriage return, alone or before a line feed, is read as
  a line feed, and \<^verbatim>\<open>for line in f\<close> ends a line at every line feed.  \<open>text_lines\<close> gives
  the lines without their line feed, which \<^verbatim>\<open>strip\<close> would remove anyway.
\<close>

fun universal_newlines :: "string \<Rightarrow> string" where
  "universal_newlines [] = []"
| "universal_newlines [c] = (if c = carriage_return then [line_feed] else [c])"
| "universal_newlines (c # c' # cs) =
     (if c = carriage_return
      then (if c' = line_feed then line_feed # universal_newlines cs
            else line_feed # universal_newlines (c' # cs))
      else c # universal_newlines (c' # cs))"

fun split_lines :: "string \<Rightarrow> string list" where
  "split_lines [] = []"
| "split_lines (c # cs) =
     (if c = line_feed then [] # split_lines cs
      else (case split_lines cs of [] \<Rightarrow> [[c]] | l # ls \<Rightarrow> (c # l) # ls))"

definition text_lines :: "string \<Rightarrow> string list" where
  "text_lines t = split_lines (universal_newlines t)"

text \<open>
  \<^verbatim>\<open>initialize_saved_domains\<close>:
  \<^verbatim>\<open>saved_domains = set(line.strip() for line in f if line.strip())\<close>, the empty set when
  the file does not exist or reading it raises.
\<close>

datatype io_outcome = IoOk | IoError

definition initialize_saved_domains :: "io_outcome \<Rightarrow> store \<Rightarrow> store" where
  "initialize_saved_domains r s =
     (case out_file s of
        None \<Rightarrow> s\<lparr>saved_domains := {}\<rparr>
      | Some t \<Rightarrow>
          (case r of
             IoOk \<Rightarrow>
               s\<lparr>saved_domains := set (filter (\<lambda>l. l \<noteq> []) (map strip (text_lines t)))\<rparr>
           | IoError \<Rightarrow> s\<lparr>saved_domains := {}\<rparr>))"

text \<open>\<^verbatim>\<open>f.write(f"{domain}\n")\<close> for each of the records \<open>ds\<close> in turn.\<close>

definition record_text :: "string list \<Rightarrow> string" where
  "record_text ds = concat (map (\<lambda>domain. domain @ [line_feed]) ds)"

text \<open>
  \<^verbatim>\<open>save_current_results\<close>, from the store before to the store after; \<open>written\<close> are the
  records the call writes, in the order of the loop.  The order in which a Python set is
  iterated is not fixed, so \<open>written\<close> is any enumeration of the new records
  \<^verbatim>\<open>current_domains - saved_domains\<close>.  The last
  two rules are the \<^verbatim>\<open>except\<close> branch: opening the file failed, or the writing failed
  when only the beginning \<open>reached\<close> of the text had reached the file; \<open>saved_domains\<close>
  is then left as it was.
\<close>

inductive save_current_results ::
  "io_outcome \<Rightarrow> string list \<Rightarrow> store \<Rightarrow> store \<Rightarrow> bool" where
  nothing_collected:
    "current_domains s = {} \<Longrightarrow> save_current_results IoOk [] s s"
| nothing_new:
    "current_domains s \<noteq> {} \<Longrightarrow> current_domains s - saved_domains s = {} \<Longrightarrow>
     save_current_results IoOk [] s s"
| appended:
    "current_domains s \<noteq> {} \<Longrightarrow> current_domains s - saved_domains s \<noteq> {} \<Longrightarrow>
     set written = current_domains s - saved_domains s \<Longrightarrow> distinct written \<Longrightarrow>
     save_current_results IoOk written s
       (s\<lparr>out_file := Some (file_text s @ record_text written),
          saved_domains := saved_domains s \<union> (current_domains s - saved_domains s)\<rparr>)"
| open_failed:
    "current_domains s \<noteq> {} \<Longrightarrow> current_domains s - saved_domains s \<noteq> {} \<Longrightarrow>
     save_current_results IoError [] s s"
| write_failed:
    "current_domains s \<noteq> {} \<Longrightarrow> current_domains s - saved_domains s \<noteq> {} \<Longrightarrow>
     set written = current_domains s - saved_domains s \<Longrightarrow> distinct written \<Longrightarrow>
     prefix reached (record_text written) \<Longrightarrow>
     save_current_results IoError written s (s\<lparr>out_file := Some (file_text s @ reached)\<rparr>)"

text \<open>
  What happens to the two sets and the file during a run, after start-up: a worker adds
  the records extracted from a page to \<open>current_domains\<close> (only when there are some), or
  the results are saved.
\<close>

inductive run_step :: "store \<Rightarrow> store \<Rightarrow> bool" where
  absorb:
    "extract_domains_from_data data = Inr domains \<Longrightarrow> domains \<noteq> [] \<Longrightarrow>
     run_step s (s\<lparr>current_domains := current_domains s \<union> set domains\<rparr>)"
| flush:
    "save_current_results r written s s' \<Longrightarrow> run_step s s'"


section \<open>Reading a trace\<close>

text \<open>
  The number of page requests sent, the attempt numbers handed to the failure archiver
  and the waits between discovery attempts, in order.
\<close>

fun is_page_request :: "event \<Rightarrow> bool" where
  "is_page_request (Request (PageCall p) c) = True"
| "is_page_request _ = False"

definition page_requests :: "event list \<Rightarrow> nat" where
  "page_requests es = length (filter is_page_request es)"

fun archived_attempt :: "event \<Rightarrow> nat option" where
  "archived_attempt (Archive resource_value attempt error_type response_data) = Some attempt"
| "archived_attempt _ = None"

definition archived :: "event list \<Rightarrow> nat list" where
  "archived es = List.map_filter archived_attempt es"

fun backoff_of :: "event \<Rightarrow> nat option" where
  "backoff_of (Backoff n) = Some n"
| "backoff_of _ = None"

definition backoffs :: "event list \<Rightarrow> nat list" where
  "backoffs es = List.map_filter backoff_of es"

text \<open>
  A step from \<open>w\<close> to \<open>w'\<close> that archives nothing, announces no wait and leaves the
  network as it is.
\<close>

definition quiet :: "world \<Rightarrow> world \<Rightarrow> bool" where
  "quiet w w' \<longleftrightarrow> archived (trace w') = archived (trace w)
                 \<and> backoffs (trace w') = backoffs (trace w) \<and> net w' = net w"

text \<open>
  A branch that carries an expiry marker: a dictionary whose \<^verbatim>\<open>status\<close> is 401 or whose
  \<^verbatim>\<open>error\<close> is \<^verbatim>\<open>session_expired\<close>.
\<close>

definition carries_marker :: "json \<Rightarrow> bool" where
  "carries_marker branch =
     (case branch of
        JObj kvs \<Rightarrow>
          map_of kvs ''status'' = Some (JNum 401)
          \<or> map_of kvs ''error'' = Some (JStr ''session_expired'')
      | _ \<Rightarrow> False)"

section \<open>What a response carries\<close>

text \<open>
  Members of a document along a path of keys, through dictionaries only.
\<close>

fun member :: "json \<Rightarrow> string \<Rightarrow> json option" where
  "member (JObj kvs) k = map_of kvs k"
| "member _ k = None"

fun jpath :: "json \<Rightarrow> string list \<Rightarrow> json option" where
  "jpath v [] = Some v"
| "jpath v (k # ks) = (case member v k of None \<Rightarrow> None | Some v' \<Rightarrow> jpath v' ks)"


definition records_in :: "string \<Rightarrow> json \<Rightarrow> bool" where
  "records_in b data =
     (case jpath data [''pageProps'', b, ''data'', ''records''] of
        Some rs \<Rightarrow> (case py_len rs of Inr n \<Rightarrow> 0 < n | Inl e \<Rightarrow> False)
      | None \<Rightarrow> False)"


definition has_records :: "json \<Rightarrow> bool" where
  "has_records data \<longleftrightarrow>
     records_in ''apexDomainData'' data \<or> records_in ''serverResponse'' data"


section \<open>Example inputs\<close>

text \<open>
  Concrete responses and networks on which the properties below are evaluated.  The
  credential in use is \<open>old_cookies\<close>; the credential file, where there is one, holds
  \<open>fresh_cookies\<close>.
\<close>

definition example_page :: json where
  "example_page = JObj [(''pageProps'', JObj [])]"

definition old_cookies :: cookies where
  "old_cookies = [(''SecurityTrails'', ''old'')]"

definition fresh_cookies :: cookies where
  "fresh_cookies = [(''SecurityTrails'', ''fresh'')]"

text \<open>The page request is answered 401, the validation of the reloaded credential 200, every later request with a page.\<close>

definition w_expired_then_ok :: world where
  "w_expired_then_ok =
     \<lparr>net = (\<lambda>k. if k = 0 then Response 401 NotJson
                 else if k = 1 then Response 200 NotJson
                 else Response 200 (Json example_page)),
      requests_made = 0, cookie_file = Entries fresh_cookies,
      current_cookies = Some old_cookies, trace = []\<rparr>"








text \<open>
  A store with one record saved and one more collected, before and after a save; the
  store before start-up with a file of one line, after start-up, after \<open>page_b\<close> has been
  absorbed and after the save that follows; and the same after a start-up that could not
  read the file.
\<close>

definition store_one_new :: store where
  "store_one_new =
     \<lparr>current_domains = {''a.example'', ''b.example''}, saved_domains = {''a.example''},
      out_file = Some (''a.example'' @ [line_feed])\<rparr>"

definition store_one_new_saved :: store where
  "store_one_new_saved =
     \<lparr>current_domains = {''a.example'', ''b.example''},
      saved_domains = {''a.example'', ''b.example''},
      out_file = Some (''a.example'' @ [line_feed] @ ''b.example'' @ [line_feed])\<rparr>"

definition page_b :: json where
  "page_b =
     JObj [(''pageProps'', JObj [(''apexDomainData'', JObj [(''data'', JObj
        [(''records'', JArr [JObj [(''hostname'', JStr ''b.example'')],
                             JObj [(''hostname'', JStr ''a.example'')]])])])])]"

definition store_restart :: store where
  "store_restart = process_start (Some (''a.example'' @ [line_feed]))"

definition store_restart_read :: store where
  "store_restart_read =
     \<lparr>current_domains = {}, saved_domains = {''a.example''},
      out_file = Some (''a.example'' @ [line_feed])\<rparr>"

definition store_restart_absorbed :: store where
  "store_restart_absorbed =
     \<lparr>current_domains = {''a.example'', ''b.example''}, saved_domains = {''a.example''},
      out_file = Some (''a.example'' @ [line_feed])\<rparr>"

definition store_restart_saved :: store where
  "store_restart_saved =
     \<lparr>current_domains = {''a.example'', ''b.example''},
      saved_domains = {''a.example'', ''b.example''},
      out_file = Some (''a.example'' @ [line_feed] @ ''b.example'' @ [line_feed])\<rparr>"

definition store_unread :: store where
  "store_unread =
     \<lparr>current_domains = {}, saved_domains = {},
      out_file = Some (''a.example'' @ [line_feed])\<rparr>"


definition store_unread_absorbed :: store where
  "store_unread_absorbed =
     \<lparr>current_domains = {''a.example''}, saved_domains = {},
      out_file = Some (''a.example'' @ [line_feed])\<rparr>"

definition store_unread_saved :: store where
  "store_unread_saved =
     \<lparr>current_domains = {''a.example''}, saved_domains = {''a.example''},
      out_file = Some (''a.example'' @ [line_feed] @ ''a.example'' @ [line_feed])\<rparr>"









section \<open>Properties of \<open>strip\<close>\<close>


lemma strip_not_space_hd:
  assumes "strip s \<noteq> []"
  shows "\<not> is_space (hd (strip s))"
proof -
  let ?t = "dropWhile is_space s"
  let ?u = "dropWhile is_space (rev ?t)"
  have u: "strip s = rev ?u" by (simp add: strip_def)
  with assms have une: "?u \<noteq> []" by simp
  have "\<exists>ps. rev ?t = ps @ ?u" by (metis takeWhile_dropWhile_id)
  then obtain ps where ps: "rev ?t = ps @ ?u" by blast
  then have "?t = rev ?u @ rev ps" by (metis rev_append rev_rev_ident)
  with une have "hd ?t = hd (rev ?u)" by (metis hd_append2 rev_is_Nil_conv)
  moreover have "?t \<noteq> []" using ps une by (metis Nil_is_append_conv rev_is_Nil_conv)
  then have "\<not> is_space (hd ?t)" by (rule hd_dropWhile)
  ultimately show ?thesis using u by simp
qed

lemma strip_not_space_last:
  assumes "strip s \<noteq> []"
  shows "\<not> is_space (last (strip s))"
proof -
  let ?u = "dropWhile is_space (rev (dropWhile is_space s))"
  have u: "strip s = rev ?u" by (simp add: strip_def)
  with assms have une: "?u \<noteq> []" by simp
  then have "\<not> is_space (hd ?u)" by (rule hd_dropWhile)
  then show ?thesis using u une by (simp add: last_rev)
qed

lemma strip_fixed:
  assumes "s \<noteq> [] \<Longrightarrow> \<not> is_space (hd s) \<and> \<not> is_space (last s)"
  shows "strip s = s"
proof (cases s)
  case Nil
  then show ?thesis by (simp add: strip_def)
next
  case (Cons a as)
  with assms have h: "\<not> is_space (hd s)" and l: "\<not> is_space (last s)" by auto
  from Cons h have 1: "dropWhile is_space s = s" by simp
  from Cons have "rev s \<noteq> []" by simp
  moreover have "hd (rev s) = last s" using Cons by (simp add: hd_rev)
  ultimately have 2: "dropWhile is_space (rev s) = rev s" using l
    by (metis dropWhile.simps(2) list.sel(1) list.exhaust)
  show ?thesis by (simp add: strip_def 1 2)
qed

lemma strip_idem: "strip (strip s) = strip s"
  by (rule strip_fixed) (simp add: strip_not_space_hd strip_not_space_last)

section \<open>Record extraction\<close>

lemma collect_hostnames_trimmed:
  "collect_hostnames rs = Inr hs \<Longrightarrow> h \<in> set hs \<Longrightarrow> h \<noteq> [] \<and> strip h = h"
proof (induction rs arbitrary: hs)
  case Nil
  then show ?case by simp
next
  case (Cons r rs)
  then show ?case
    by (cases r)
       (auto simp: ebind_def strip_idem split: sum.splits json.splits if_splits option.splits)
qed

lemma branch_domains_trimmed:
  "branch_domains pp b = Inr hs \<Longrightarrow> h \<in> set hs \<Longrightarrow> h \<noteq> [] \<and> strip h = h"
  unfolding branch_domains_def ebind_def
  by (auto split: sum.splits if_splits dest: collect_hostnames_trimmed)

lemma extract_domains_trimmed:
  "extract_domains_from_data d = Inr hs \<Longrightarrow> h \<in> set hs \<Longrightarrow> h \<noteq> [] \<and> strip h = h"
  unfolding extract_domains_from_data_def ebind_def
  by (auto split: sum.splits if_splits dest: branch_domains_trimmed)














section \<open>Session expiry and the trace of a fetch\<close>

lemma trace_emit [simp]: "trace (emit e w) = trace w @ [e]"
  by (simp add: emit_def)

lemma trace_http_get [simp]: "trace (snd (http_get k c w)) = trace w @ [Request k c]"
  by (simp add: http_get_def)

lemma fst_http_get [simp]: "fst (http_get k c w) = net w (requests_made w)"
  by (simp add: http_get_def)

lemma trace_load: "\<exists>es. trace (snd (load_securitytrails_cookie w)) = trace w @ es"
  by (auto simp: load_securitytrails_cookie_def split: cookie_file.splits)

lemma trace_validate: "trace (snd (validate_session c w)) = trace w @ [Request ValidationCall c]"
proof -
  obtain r w1 where h: "http_get ValidationCall c w = (r, w1)" by (cases "http_get ValidationCall c w")
  then have "trace w1 = trace w @ [Request ValidationCall c]"
    using trace_http_get[of ValidationCall c w] by simp
  with h show ?thesis
    by (auto simp: validate_session_def split: http_outcome.splits body.splits sum.splits bool.splits)
qed

lemma trace_reload: "\<exists>es. trace (snd (reload_cookies w)) = trace w @ ReloadStarted # es"
proof -
  obtain lc w1 where l: "load_securitytrails_cookie (emit ReloadStarted w) = (lc, w1)"
    by (cases "load_securitytrails_cookie (emit ReloadStarted w)")
  from trace_load[of "emit ReloadStarted w"] l
  obtain es where es: "trace w1 = trace w @ ReloadStarted # es" by auto
  show ?thesis
  proof (cases lc)
    case None
    with l es show ?thesis by (simp add: reload_cookies_def)
  next
    case (Some c)
    obtain ok w2 where v: "validate_session c w1 = (ok, w2)" by (cases "validate_session c w1")
    with trace_validate[of c w1] have "trace w2 = trace w1 @ [Request ValidationCall c]" by simp
    with l es Some v show ?thesis
      by (cases ok) (auto simp: reload_cookies_def)
  qed
qed

lemma trace_fetch_loop:
  "\<exists>es. trace (snd (fetch_loop as m page c w)) = trace w @ es"
proof (induction as arbitrary: c w)
  case Nil
  then show ?case by simp
next
  case (Cons a as)
  obtain r w1 where h: "http_get (PageCall page) c w = (r, w1)" by (cases "http_get (PageCall page) c w")
  then have w1: "trace w1 = trace w @ [Request (PageCall page) c]"
    using trace_http_get[of "PageCall page" c w] by simp
  obtain nc w2 where rl: "reload_cookies w1 = (nc, w2)" by (cases "reload_cookies w1")
  with trace_reload[of w1] w1 obtain es2 where w2: "trace w2 = trace w @ es2" by auto
  have retry: "\<exists>es. trace (snd (case reload_cookies w1 of
                  (Some new_cookies, w2) \<Rightarrow>
                    if new_cookies \<noteq> []
                    then fetch_loop as m page new_cookies w2
                    else (None, w2)
                | (None, w2) \<Rightarrow> (None, w2))) = trace w @ es"
  proof (cases nc)
    case None
    with rl w2 show ?thesis by simp
  next
    case (Some n)
    from Cons.IH[of n w2] w2 obtain es3 where "trace (snd (fetch_loop as m page n w2)) = trace w @ es3"
      by auto
    with rl w2 Some show ?thesis by simp
  qed
  from Cons.IH[of c "emit (Sleep 2) w1"] w1
  obtain es4 where conn: "trace (snd (fetch_loop as m page c (emit (Sleep 2) w1))) = trace w @ es4"
    by auto
  show ?case
    using h w1 retry conn
    by (auto split: http_outcome.splits body.splits sum.splits bool.splits)
qed


lemma expiry_marker_iff: "expiry_marker br = Inr True \<longleftrightarrow> carries_marker br"
  by (cases br) (auto simp: expiry_marker_def carries_marker_def ebind_def split: option.splits)

lemma expiry_marker_obj: "expiry_marker (JObj kvs) = Inr (carries_marker (JObj kvs))"
  by (auto simp: expiry_marker_def carries_marker_def ebind_def split: option.splits)

lemma is_session_expired_apex:
  assumes "map_of tp ''pageProps'' = Some (JObj pp)"
    and "map_of pp ''apexDomainData'' = Some br" and "carries_marker br"
  shows "is_session_expired (JObj tp) = Inr True"
proof -
  from assms(1) have "tp \<noteq> []" by auto
  moreover from assms(3) have "expiry_marker br = Inr True" by (simp add: expiry_marker_iff)
  ultimately show ?thesis using assms(1,2)
    by (simp add: is_session_expired_def ebind_def)
qed

lemma is_session_expired_dns:
  assumes "map_of tp ''pageProps'' = Some (JObj pp)"
    and "map_of pp ''apexDomainData'' = None
         \<or> (\<exists>kvs. map_of pp ''apexDomainData'' = Some (JObj kvs) \<and> \<not> carries_marker (JObj kvs))"
    and "map_of pp ''dnsData'' = Some br" and "carries_marker br"
  shows "is_session_expired (JObj tp) = Inr True"
proof -
  from assms(1) have "tp \<noteq> []" by auto
  moreover from assms(4) have "expiry_marker br = Inr True" by (simp add: expiry_marker_iff)
  ultimately show ?thesis using assms(1,2,3)
    by (auto simp: is_session_expired_def ebind_def expiry_marker_obj)
qed

lemma is_session_expired_only:
  assumes "is_session_expired data = Inr True"
  shows "\<exists>tp pp br. data = JObj tp \<and> map_of tp ''pageProps'' = Some (JObj pp)
           \<and> (map_of pp ''apexDomainData'' = Some br \<or> map_of pp ''dnsData'' = Some br)
           \<and> carries_marker br"
proof -
  from assms obtain tp where d: "data = JObj tp"
    by (cases data) (auto simp: is_session_expired_def ebind_def split: if_splits)
  with assms obtain ppv where ppv: "map_of tp ''pageProps'' = Some ppv"
    by (auto simp: is_session_expired_def ebind_def split: if_splits option.splits)
  with assms d obtain pp where pp: "ppv = JObj pp"
    by (cases ppv) (auto simp: is_session_expired_def ebind_def split: if_splits sum.splits)
  from assms d ppv pp have
    "(\<exists>br. map_of pp ''apexDomainData'' = Some br \<and> expiry_marker br = Inr True)
     \<or> (\<exists>br. map_of pp ''dnsData'' = Some br \<and> expiry_marker br = Inr True)"
    by (auto simp: is_session_expired_def ebind_def split: if_splits sum.splits option.splits)
  with d ppv pp show ?thesis by (auto simp: expiry_marker_iff)
qed

lemma fetch_loop_auth:
  assumes "net w (requests_made w) = Response status b"
    and "status = 401 \<or> (\<not> (400 \<le> status \<and> status < 600) \<and> (\<exists>d. b = Json d \<and> is_session_expired d = Inr True))"
  shows "\<exists>es. trace (snd (fetch_loop (attempt # rest) m page c w))
           = trace w @ Request (PageCall page) c # ReloadStarted # es"
proof -
  obtain w1 where h: "http_get (PageCall page) c w = (Response status b, w1)"
    using assms(1) by (cases "http_get (PageCall page) c w") (auto simp: http_get_def)
  then have w1: "trace w1 = trace w @ [Request (PageCall page) c]"
    using trace_http_get[of "PageCall page" c w] by simp
  obtain nc w2 where rl: "reload_cookies w1 = (nc, w2)" by (cases "reload_cookies w1")
  with trace_reload[of w1] w1 obtain es2
    where w2: "trace w2 = trace w @ Request (PageCall page) c # ReloadStarted # es2" by auto
  have retry: "\<exists>es. trace (snd (case reload_cookies w1 of
                  (Some new_cookies, w2) \<Rightarrow>
                    if new_cookies \<noteq> []
                    then fetch_loop rest m page new_cookies w2
                    else (None, w2)
                | (None, w2) \<Rightarrow> (None, w2)))
             = trace w @ Request (PageCall page) c # ReloadStarted # es"
  proof (cases nc)
    case None
    with rl w2 show ?thesis by simp
  next
    case (Some n)
    from trace_fetch_loop[of rest m page n w2] w2
    obtain es3 where "trace (snd (fetch_loop rest m page n w2))
        = trace w @ Request (PageCall page) c # ReloadStarted # es3"
      by auto
    with rl w2 Some show ?thesis by simp
  qed
  from assms(2) show ?thesis
  proof
    assume "status = 401"
    with h retry show ?thesis by simp
  next
    assume "\<not> (400 \<le> status \<and> status < 600) \<and> (\<exists>d. b = Json d \<and> is_session_expired d = Inr True)"
    then obtain d where "\<not> (400 \<le> status \<and> status < 600)" "b = Json d" "is_session_expired d = Inr True"
      by blast
    with h retry show ?thesis by (cases "status = 401") auto
  qed
qed


text \<open>
  Claim C4, as stated: an expiry marker embedded in either response branch, the
  \<^verbatim>\<open>apexDomainData\<close> one or the \<^verbatim>\<open>serverResponse\<close> one, is detected on every response.
  \<open>is_session_expired\<close> looks into \<^verbatim>\<open>apexDomainData\<close> and \<^verbatim>\<open>dnsData\<close>; a marker in
  \<^verbatim>\<open>serverResponse\<close> goes unnoticed.  Below, a 200 response whose \<^verbatim>\<open>serverResponse\<close>
  carries both markers is not reported as expired, and the fetch returns it as data
  without starting a reload.
\<close>

theorem C4_counterexample:
  "carries_marker (JObj [(''status'', JNum 401), (''error'', JStr ''session_expired'')])
   \<and> is_session_expired
       (JObj [(''pageProps'', JObj [(''serverResponse'',
          JObj [(''status'', JNum 401), (''error'', JStr ''session_expired'')])])])
     = Inr False
   \<and> fst (get_securitytrails_data ''reverse_ip'' ''192.0.2.1'' 1 [(''SecurityTrails'', ''v'')] None 5
        \<lparr>net = (\<lambda>k. Response 200 (Json
            (JObj [(''pageProps'', JObj [(''serverResponse'',
               JObj [(''status'', JNum 401), (''error'', JStr ''session_expired'')])])]))),
         requests_made = 0, cookie_file = NotFound, current_cookies = None, trace = []\<rparr>)
     = Some (JObj [(''pageProps'', JObj [(''serverResponse'',
          JObj [(''status'', JNum 401), (''error'', JStr ''session_expired'')])])])
   \<and> trace (snd (get_securitytrails_data ''reverse_ip'' ''192.0.2.1'' 1 [(''SecurityTrails'', ''v'')] None 5
        \<lparr>net = (\<lambda>k. Response 200 (Json
            (JObj [(''pageProps'', JObj [(''serverResponse'',
               JObj [(''status'', JNum 401), (''error'', JStr ''session_expired'')])])]))),
         requests_made = 0, cookie_file = NotFound, current_cookies = None, trace = []\<rparr>))
     = [Request (PageCall 1) [(''SecurityTrails'', ''v'')]]"
  by (simp add: carries_marker_def is_session_expired_def expiry_marker_def ebind_def
        get_securitytrails_data_def valid_resource_types_def upt_rec http_get_def emit_def)

text \<open>
  Claim C4, amended.  \<open>is_session_expired\<close> reports a response as expired when the
  \<^verbatim>\<open>apexDomainData\<close> member of its \<^verbatim>\<open>pageProps\<close> carries a marker, and when
  \<^verbatim>\<open>apexDomainData\<close> is absent or a dictionary without a marker and the \<^verbatim>\<open>dnsData\<close>
  member carries one; it reports nothing else as expired.  In the fetch, a response with
  status 401, and a response whose status is not from 400 to 599 and whose body parses and
  is reported as expired, are both followed at once by a reload of the credentials.
\<close>

theorem C4_session_expiry_channels:
  "(map_of tp1 ''pageProps'' = Some (JObj pp1) \<and> map_of pp1 ''apexDomainData'' = Some br1
      \<and> carries_marker br1
    \<longrightarrow> is_session_expired (JObj tp1) = Inr True)
   \<and> (map_of tp2 ''pageProps'' = Some (JObj pp2)
      \<and> (map_of pp2 ''apexDomainData'' = None
          \<or> (\<exists>kvs. map_of pp2 ''apexDomainData'' = Some (JObj kvs) \<and> \<not> carries_marker (JObj kvs)))
      \<and> map_of pp2 ''dnsData'' = Some br2 \<and> carries_marker br2
    \<longrightarrow> is_session_expired (JObj tp2) = Inr True)
   \<and> (is_session_expired data = Inr True
    \<longrightarrow> (\<exists>tp pp br. data = JObj tp \<and> map_of tp ''pageProps'' = Some (JObj pp)
           \<and> (map_of pp ''apexDomainData'' = Some br \<or> map_of pp ''dnsData'' = Some br)
           \<and> carries_marker br))
   \<and> (net w (requests_made w) = Response status b
      \<and> (status = 401
          \<or> (\<not> (400 \<le> status \<and> status < 600)
              \<and> (\<exists>d. b = Json d \<and> is_session_expired d = Inr True)))
    \<longrightarrow> (\<exists>es. trace (snd (fetch_loop (attempt # rest) m page c w))
           = trace w @ Request (PageCall page) c # ReloadStarted # es))"
  using is_session_expired_apex[of tp1 pp1 br1] is_session_expired_dns[of tp2 pp2 br2]
    is_session_expired_only[of data] fetch_loop_auth[of w status b attempt rest m page c]
  by blast

theorem C4_session_expiry_channels_witness:
  "is_session_expired
     (JObj [(''pageProps'', JObj [(''apexDomainData'', JObj [(''status'', JNum 401)])])])
     = Inr True
   \<and> is_session_expired
     (JObj [(''pageProps'', JObj [(''apexDomainData'', JObj [(''data'', JObj [])]),
                                  (''dnsData'', JObj [(''error'', JStr ''session_expired'')])])])
     = Inr True
   \<and> carries_marker (JObj [(''status'', JNum 401)])
   \<and> trace (snd (fetch_loop (0 # [1, 2, 3, 4]) 5 1 [(''SecurityTrails'', ''v'')]
        \<lparr>net = (\<lambda>k. Response 401 NotJson),
         requests_made = 0, cookie_file = NotFound, current_cookies = None, trace = []\<rparr>))
     = [] @ Request (PageCall 1) [(''SecurityTrails'', ''v'')] # ReloadStarted # []
   \<and> trace (snd (fetch_loop (0 # [1, 2, 3, 4]) 5 1 [(''SecurityTrails'', ''v'')]
        \<lparr>net = (\<lambda>k. Response 200 (Json
           (JObj [(''pageProps'', JObj [(''apexDomainData'', JObj [(''status'', JNum 401)])])]))),
         requests_made = 0, cookie_file = NotFound, current_cookies = None, trace = []\<rparr>))
     = [] @ Request (PageCall 1) [(''SecurityTrails'', ''v'')] # ReloadStarted # []"
  using C4_session_expiry_channels
    [where ?tp1.0 = "[(''pageProps'', JObj [(''apexDomainData'', JObj [(''status'', JNum 401)])])]"
       and ?pp1.0 = "[(''apexDomainData'', JObj [(''status'', JNum 401)])]"
       and ?br1.0 = "JObj [(''status'', JNum 401)]"
       and ?tp2.0 = "[(''pageProps'', JObj [(''apexDomainData'', JObj [(''data'', JObj [])]),
                                  (''dnsData'', JObj [(''error'', JStr ''session_expired'')])])]"
       and ?pp2.0 = "[(''apexDomainData'', JObj [(''data'', JObj [])]),
                                  (''dnsData'', JObj [(''error'', JStr ''session_expired'')])]"
       and ?br2.0 = "JObj [(''error'', JStr ''session_expired'')]"
       and data = "JObj [(''pageProps'', JObj [(''apexDomainData'', JObj [(''status'', JNum 401)])])]"
       and w = "\<lparr>net = (\<lambda>k. Response 401 NotJson),
         requests_made = 0, cookie_file = NotFound, current_cookies = None, trace = []\<rparr>"
       and status = 401 and b = NotJson and attempt = 0 and rest = "[1, 2, 3, 4]" and m = 5
       and page = 1 and c = "[(''SecurityTrails'', ''v'')]"]
  by (simp add: carries_marker_def is_session_expired_def expiry_marker_def ebind_def
        http_get_def emit_def reload_cookies_def load_securitytrails_cookie_def)

section \<open>The attempts of a fetch\<close>

lemma page_requests_append [simp]:
  "page_requests (xs @ ys) = page_requests xs + page_requests ys"
  by (simp add: page_requests_def)

lemma page_requests_simps [simp]:
  "page_requests [] = 0"
  "page_requests (Request (PageCall p) c # es) = Suc (page_requests es)"
  "page_requests (Request ValidationCall c # es) = page_requests es"
  "page_requests (ReloadStarted # es) = page_requests es"
  "page_requests (Sleep n # es) = page_requests es"
  "page_requests (Backoff n # es) = page_requests es"
  "page_requests (Archive rv a et d # es) = page_requests es"
  by (simp_all add: page_requests_def)












lemmas example_defs = example_page_def old_cookies_def fresh_cookies_def
lemmas eval_defs = get_securitytrails_data_def valid_resource_types_def upt_rec http_get_def
  emit_def reload_cookies_def load_securitytrails_cookie_def validate_session_def
  is_session_expired_def ebind_def




section \<open>Reloading the credentials\<close>

lemma current_cookies_emit [simp]: "current_cookies (emit e w) = current_cookies w"
  by (simp add: emit_def)

lemma current_cookies_load [simp]:
  "current_cookies (snd (load_securitytrails_cookie w)) = current_cookies w"
  by (simp add: load_securitytrails_cookie_def split: cookie_file.splits)

lemma current_cookies_validate [simp]:
  "current_cookies (snd (validate_session c w)) = current_cookies w"
  by (simp add: validate_session_def http_get_def
      split: http_outcome.splits body.splits sum.splits bool.splits)

lemma reload_cookies_cases:
  assumes "load_securitytrails_cookie (emit ReloadStarted w) = (lc, w1)"
  shows "(lc = None \<longrightarrow> reload_cookies w = (None, w1))
       \<and> (\<forall>c. lc = Some c \<and> \<not> fst (validate_session c w1)
              \<longrightarrow> reload_cookies w = (None, snd (validate_session c w1)))
       \<and> (\<forall>c. lc = Some c \<and> fst (validate_session c w1)
              \<longrightarrow> c \<noteq> [] \<and> reload_cookies w
                    = (Some c, (snd (validate_session c w1))\<lparr>current_cookies := Some c\<rparr>))"
proof -
  have ne: "c \<noteq> []" if "lc = Some c" for c
  proof -
    have "find_cookie es = Some c \<Longrightarrow> c \<noteq> []" for es
      by (induction es) (auto split: if_splits)
    with assms that show ?thesis
      by (auto simp: load_securitytrails_cookie_def split: cookie_file.splits)
  qed
  show ?thesis using assms ne
    by (auto simp: reload_cookies_def split: prod.splits bool.splits)
qed

lemma reload_cookies_rejected:
  assumes "fst (load_securitytrails_cookie (emit ReloadStarted w)) = Some c"
    and "\<not> fst (validate_session c (snd (load_securitytrails_cookie (emit ReloadStarted w))))"
  shows "fst (reload_cookies w) = None"
    and "current_cookies (snd (reload_cookies w)) = current_cookies w"
proof -
  obtain lc w1 where l: "load_securitytrails_cookie (emit ReloadStarted w) = (lc, w1)"
    by (cases "load_securitytrails_cookie (emit ReloadStarted w)")
  with assms have "lc = Some c" "\<not> fst (validate_session c w1)" by simp_all
  with reload_cookies_cases[OF l]
  have r: "reload_cookies w = (None, snd (validate_session c w1))" by blast
  then show "fst (reload_cookies w) = None" by simp
  have "current_cookies w1 = current_cookies w"
    using current_cookies_load[of "emit ReloadStarted w"] l by simp
  with r show "current_cookies (snd (reload_cookies w)) = current_cookies w" by simp
qed

lemma reload_cookies_failed_keeps:
  assumes "fst (reload_cookies w) = None"
  shows "current_cookies (snd (reload_cookies w)) = current_cookies w"
proof -
  obtain lc w1 where l: "load_securitytrails_cookie (emit ReloadStarted w) = (lc, w1)"
    by (cases "load_securitytrails_cookie (emit ReloadStarted w)")
  have w1: "current_cookies w1 = current_cookies w"
    using current_cookies_load[of "emit ReloadStarted w"] l by simp
  show ?thesis
  proof (cases lc)
    case None
    with reload_cookies_cases[OF l] w1 show ?thesis by simp
  next
    case (Some c)
    show ?thesis
    proof (cases "fst (validate_session c w1)")
      case True
      with Some reload_cookies_cases[OF l] assms show ?thesis by auto
    next
      case False
      with Some reload_cookies_cases[OF l] have "reload_cookies w = (None, snd (validate_session c w1))"
        by blast
      with w1 show ?thesis by simp
    qed
  qed
qed

lemma reload_cookies_installs_valid:
  assumes "current_cookies (snd (reload_cookies w)) \<noteq> current_cookies w"
  shows "\<exists>c. fst (load_securitytrails_cookie (emit ReloadStarted w)) = Some c
           \<and> fst (validate_session c (snd (load_securitytrails_cookie (emit ReloadStarted w))))
           \<and> current_cookies (snd (reload_cookies w)) = Some c
           \<and> fst (reload_cookies w) = Some c"
proof -
  obtain lc w1 where l: "load_securitytrails_cookie (emit ReloadStarted w) = (lc, w1)"
    by (cases "load_securitytrails_cookie (emit ReloadStarted w)")
  from assms reload_cookies_failed_keeps[of w] obtain c where c: "fst (reload_cookies w) = Some c"
    by (cases "fst (reload_cookies w)") auto
  have w1: "current_cookies w1 = current_cookies w"
    using current_cookies_load[of "emit ReloadStarted w"] l by simp
  show ?thesis
  proof (cases lc)
    case None
    with reload_cookies_cases[OF l] c show ?thesis by simp
  next
    case (Some c')
    show ?thesis
    proof (cases "fst (validate_session c' w1)")
      case True
      with Some reload_cookies_cases[OF l]
      have "reload_cookies w = (Some c', (snd (validate_session c' w1))\<lparr>current_cookies := Some c'\<rparr>)"
        by blast
      with l Some True show ?thesis by simp
    next
      case False
      with Some reload_cookies_cases[OF l] c show ?thesis by auto
    qed
  qed
qed

text \<open>
  Claim C8.  When the credential loaded by a reload fails validation, the reload returns
  \<^verbatim>\<open>None\<close> and \<open>current_cookies\<close> is what it was; every reload that returns
  \<^verbatim>\<open>None\<close> leaves \<open>current_cookies\<close> as it was; and a reload changes \<open>current_cookies\<close>
  only to the credential it has loaded and validated, which it then also returns.
\<close>

theorem C8_reload_keeps_session:
  "(fst (load_securitytrails_cookie (emit ReloadStarted w)) = Some c
      \<and> \<not> fst (validate_session c (snd (load_securitytrails_cookie (emit ReloadStarted w))))
    \<longrightarrow> fst (reload_cookies w) = None
        \<and> current_cookies (snd (reload_cookies w)) = current_cookies w)
   \<and> (fst (reload_cookies w) = None
    \<longrightarrow> current_cookies (snd (reload_cookies w)) = current_cookies w)
   \<and> (current_cookies (snd (reload_cookies w)) \<noteq> current_cookies w
    \<longrightarrow> (\<exists>c'. fst (load_securitytrails_cookie (emit ReloadStarted w)) = Some c'
           \<and> fst (validate_session c' (snd (load_securitytrails_cookie (emit ReloadStarted w))))
           \<and> current_cookies (snd (reload_cookies w)) = Some c'
           \<and> fst (reload_cookies w) = Some c'))"
  using reload_cookies_rejected[of w c] reload_cookies_failed_keeps[of w]
    reload_cookies_installs_valid[of w]
  by blast

theorem C8_reload_keeps_session_witness:
  "fst (load_securitytrails_cookie (emit ReloadStarted w_expired_then_ok)) = Some fresh_cookies
   \<and> \<not> fst (validate_session fresh_cookies
            (snd (load_securitytrails_cookie (emit ReloadStarted w_expired_then_ok))))
   \<and> fst (reload_cookies w_expired_then_ok) = None
   \<and> current_cookies (snd (reload_cookies w_expired_then_ok)) = Some old_cookies
   \<and> current_cookies w_expired_then_ok = Some old_cookies
   \<and> current_cookies (snd (reload_cookies (w_expired_then_ok\<lparr>requests_made := 1\<rparr>)))
       \<noteq> current_cookies (w_expired_then_ok\<lparr>requests_made := 1\<rparr>)
   \<and> fst (validate_session fresh_cookies
        (snd (load_securitytrails_cookie
               (emit ReloadStarted (w_expired_then_ok\<lparr>requests_made := 1\<rparr>)))))
   \<and> current_cookies (snd (reload_cookies (w_expired_then_ok\<lparr>requests_made := 1\<rparr>)))
       = Some fresh_cookies
   \<and> fst (reload_cookies (w_expired_then_ok\<lparr>requests_made := 1\<rparr>)) = Some fresh_cookies"
  using C8_reload_keeps_session[of w_expired_then_ok fresh_cookies]
    C8_reload_keeps_session[of "w_expired_then_ok\<lparr>requests_made := 1\<rparr>" fresh_cookies]
  by (simp add: w_expired_then_ok_def example_defs eval_defs)

section \<open>The legitimacy check\<close>





section \<open>Pagination discovery\<close>





lemma archived_append [simp]: "archived (xs @ ys) = archived xs @ archived ys"
  by (simp add: archived_def List.map_filter_def)

lemma backoffs_append [simp]: "backoffs (xs @ ys) = backoffs xs @ backoffs ys"
  by (simp add: backoffs_def List.map_filter_def)

lemma archived_simps [simp]:
  "archived [] = []"
  "archived (Request k c # es) = archived es"
  "archived (ReloadStarted # es) = archived es"
  "archived (Sleep n # es) = archived es"
  "archived (Backoff n # es) = archived es"
  "archived (Archive rv a et d # es) = a # archived es"
  by (simp_all add: archived_def)

lemma backoffs_simps [simp]:
  "backoffs [] = []"
  "backoffs (Request k c # es) = backoffs es"
  "backoffs (ReloadStarted # es) = backoffs es"
  "backoffs (Sleep n # es) = backoffs es"
  "backoffs (Backoff n # es) = n # backoffs es"
  "backoffs (Archive rv a et d # es) = backoffs es"
  by (simp_all add: backoffs_def)

lemma quiet_refl [simp]: "quiet w w"
  by (simp add: quiet_def)



























section \<open>Distribution of the work items\<close>

lemma mset_concat_append_at:
  assumes "k < length wt"
  shows "mset (concat (wt[k := wt ! k @ [x]])) = add_mset x (mset (concat wt))"
proof -
  have "wt = take k wt @ wt ! k # drop (Suc k) wt"
    using assms by (rule id_take_nth_drop)
  then have "mset (concat wt)
      = mset (concat (take k wt)) + mset (wt ! k) + mset (concat (drop (Suc k) wt))"
    by (metis concat.simps(2) concat_append mset_append add.assoc)
  moreover have "wt[k := wt ! k @ [x]] = take k wt @ (wt ! k @ [x]) # drop (Suc k) wt"
    using assms by (rule upd_conv_take_nth_drop)
  then have "mset (concat (wt[k := wt ! k @ [x]]))
      = mset (concat (take k wt)) + mset (wt ! k @ [x]) + mset (concat (drop (Suc k) wt))"
    by (metis concat.simps(2) concat_append mset_append add.assoc)
  ultimately show ?thesis by simp
qed

lemma assign_tasks_slices:
  assumes "0 < worker_count" and "length wt = nat worker_count"
  shows "\<exists>wt'. assign_tasks (enumerate n xs) worker_count wt = Inr wt'
           \<and> length wt' = length wt
           \<and> (\<forall>j<length wt. wt' ! j = wt ! j @ nths xs {i. (n + i) mod nat worker_count = j})
           \<and> mset (concat wt') = mset (concat wt) + mset xs"
  using assms(2)
proof (induction xs arbitrary: n wt)
  case Nil
  then show ?case by simp
next
  case (Cons x xs)
  let ?W = "nat worker_count"
  let ?k = "n mod ?W"
  have Wpos: "0 < ?W" using assms(1) by simp
  have slot: "int n mod worker_count = int ?k"
    using assms(1) by (simp add: zmod_int)
  have k: "?k < length wt" using Cons.prems Wpos by simp
  let ?wt1 = "wt[?k := wt ! ?k @ [x]]"
  have len1: "length ?wt1 = nat worker_count" using Cons.prems by simp
  have step: "assign_tasks (enumerate n (x # xs)) worker_count wt
                = assign_tasks (enumerate (Suc n) xs) worker_count ?wt1"
    using assms(1) slot k by (simp add: Let_def)
  from Cons.IH[OF len1, of "Suc n"] obtain wt' where
    r: "assign_tasks (enumerate (Suc n) xs) worker_count ?wt1 = Inr wt'"
    and l: "length wt' = length ?wt1"
    and s: "\<forall>j<length ?wt1. wt' ! j = ?wt1 ! j @ nths xs {i. (Suc n + i) mod ?W = j}"
    and m: "mset (concat wt') = mset (concat ?wt1) + mset xs"
    by blast
  have "wt' ! j = wt ! j @ nths (x # xs) {i. (n + i) mod ?W = j}" if "j < length wt" for j
  proof -
    from s that have "wt' ! j = ?wt1 ! j @ nths xs {i. (Suc n + i) mod ?W = j}" by simp
    moreover have "?wt1 ! j = wt ! j @ (if ?k = j then [x] else [])"
      using that by (auto simp: nth_list_update)
    ultimately show ?thesis by (simp add: nths_Cons)
  qed
  moreover have "mset (concat wt') = mset (concat wt) + mset (x # xs)"
    using m mset_concat_append_at[OF k, of x] by simp
  ultimately show ?case using step r l by simp
qed

lemma nths_as_filter:
  "nths xs {i. P i} = map (\<lambda>i. xs ! i) (filter P [0..<length xs])"
proof (induction xs rule: rev_induct)
  case Nil
  then show ?case by simp
next
  case (snoc x xs)
  have "map ((!) (xs @ [x])) (filter P [0..<length xs]) = map ((!) xs) (filter P [0..<length xs])"
    by (rule map_cong) (auto simp: nth_append)
  with snoc show ?case by (simp add: nths_append)
qed

lemma distribute_slices:
  assumes "resources \<noteq> []" and "0 < worker_count"
  shows "\<exists>slices. distribute_resources_to_workers resources search_terms worker_count = Inr slices
           \<and> length slices = nat worker_count
           \<and> (\<forall>j<nat worker_count. slices ! j
                 = map (\<lambda>i. work_items_of resources search_terms ! i)
                     (filter (\<lambda>i. i mod nat worker_count = j)
                        [0..<length (work_items_of resources search_terms)]))
           \<and> (\<forall>j<nat worker_count. subseq (slices ! j) (work_items_of resources search_terms))
           \<and> mset (concat slices) = mset (work_items_of resources search_terms)"
proof -
  let ?items = "work_items_of resources search_terms"
  let ?W = "nat worker_count"
  have "length (replicate ?W ([] :: ('a \<times> 'b option) list)) = ?W" by simp
  from assign_tasks_slices[OF assms(2) this, of 0 ?items] obtain slices where
    r: "assign_tasks (enumerate 0 ?items) worker_count (replicate ?W []) = Inr slices"
    and l: "length slices = ?W"
    and s: "\<forall>j<?W. slices ! j = nths ?items {i. i mod ?W = j}"
    and m: "mset (concat slices) = mset ?items"
    by auto
  from s have "\<forall>j<?W. subseq (slices ! j) ?items"
    by (auto simp: subseq_conv_nths)
  with r l s m assms(1) show ?thesis
    by (simp add: distribute_resources_to_workers_def nths_as_filter)
qed


text \<open>
  Claim C2, as stated: for every task list and every worker count \<open>W\<close> the tasks are
  partitioned into \<open>W\<close> slices.  For an empty resource list the function returns before
  any slice is made: the result is the empty list, not \<open>W\<close> empty slices.
\<close>

theorem C2_counterexample:
  "distribute_resources_to_workers ([] :: string list) ([] :: string list) 3 = Inr []
   \<and> length ([] :: (string \<times> string option) list list) \<noteq> nat 3"
  by (simp add: distribute_resources_to_workers_def)

text \<open>
  Claim C2, amended.  For a resource list that is not empty and a worker count \<open>W\<close> of at
  least 1, \<open>distribute_resources_to_workers\<close> returns \<open>W\<close> slices; slice \<open>j\<close> holds the
  work items whose index \<open>i\<close> has \<open>i mod W = j\<close>, in the order of their indices, so each
  slice is a subsequence of the list of work items; and the slices taken together hold
  every work item as often as the list does, which makes them disjoint as sets of
  positions and covering.  The result is a function of the resources, the search terms
  and \<open>W\<close> alone.  For an empty resource list the result is the empty list.
\<close>

theorem C2_round_robin_partition:
  "(resources \<noteq> [] \<and> 0 < worker_count
    \<longrightarrow> (\<exists>slices.
          distribute_resources_to_workers resources search_terms worker_count = Inr slices
          \<and> length slices = nat worker_count
          \<and> (\<forall>j<nat worker_count. slices ! j
                = map (\<lambda>i. work_items_of resources search_terms ! i)
                    (filter (\<lambda>i. i mod nat worker_count = j)
                       [0..<length (work_items_of resources search_terms)]))
          \<and> (\<forall>j<nat worker_count. subseq (slices ! j) (work_items_of resources search_terms))
          \<and> mset (concat slices) = mset (work_items_of resources search_terms)))
   \<and> distribute_resources_to_workers [] search_terms worker_count = Inr []"
  using distribute_slices[of resources worker_count search_terms]
  by (simp add: distribute_resources_to_workers_def)

theorem C2_round_robin_partition_witness:
  "[''a.example'', ''b.example'', ''c.example''] \<noteq> [] \<and> (0 :: int) < 2
   \<and> distribute_resources_to_workers [''a.example'', ''b.example'', ''c.example'']
        ([] :: string list) 2
     = Inr [[(''a.example'', None), (''c.example'', None)], [(''b.example'', None)]]
   \<and> distribute_resources_to_workers [''a.example'', ''b.example''] [''www'', ''api''] 3
     = Inr [[(''a.example'', Some ''www''), (''b.example'', Some ''api'')],
            [(''a.example'', Some ''api'')],
            [(''b.example'', Some ''www'')]]
   \<and> mset (concat [[(''a.example'', None :: string option), (''c.example'', None)],
                     [(''b.example'', None)]])
     = mset (work_items_of [''a.example'', ''b.example'', ''c.example''] ([] :: string list))"
  using C2_round_robin_partition[of "[''a.example'', ''b.example'', ''c.example'']" 2
          "[] :: string list"]
  by (simp add: distribute_resources_to_workers_def work_items_of_def enumerate_eq_zip
        upt_rec Let_def eval_nat_numeral)

section \<open>Collected and saved records\<close>

lemma record_text_Nil [simp]: "record_text [] = []"
  by (simp add: record_text_def)

lemma save_current_results_effect:
  assumes "save_current_results r written s s'"
  shows "current_domains s' = current_domains s
       \<and> saved_domains s \<subseteq> saved_domains s'
       \<and> saved_domains s' \<subseteq> saved_domains s \<union> current_domains s
       \<and> set written \<subseteq> current_domains s - saved_domains s
       \<and> (\<exists>added. file_text s' = file_text s @ added)"
  using assms
proof cases
  case nothing_collected
  then show ?thesis by simp
next
  case nothing_new
  then show ?thesis by simp
next
  case appended
  then show ?thesis by (auto simp: file_text_def)
next
  case open_failed
  then show ?thesis by simp
next
  case (write_failed reached)
  then show ?thesis by (auto simp: file_text_def)
qed

lemma save_current_results_ok:
  assumes "save_current_results IoOk written s s'"
  shows "file_text s' = file_text s @ record_text written
       \<and> set written = current_domains s - saved_domains s \<and> distinct written
       \<and> saved_domains s' = saved_domains s \<union> (current_domains s - saved_domains s)
       \<and> current_domains s' = current_domains s"
  using assms
proof cases
  case nothing_collected
  then show ?thesis by auto
next
  case nothing_new
  then show ?thesis by auto
next
  case appended
  then show ?thesis by (auto simp: file_text_def)
qed

lemma save_current_results_idem:
  assumes "save_current_results IoOk written s s'"
    and "save_current_results r written' s' s''"
  shows "s'' = s' \<and> written' = []"
proof -
  from save_current_results_ok[OF assms(1)]
  have "current_domains s' - saved_domains s' = {}" by auto
  with assms(2) show ?thesis by cases auto
qed

lemma save_current_results_error:
  assumes "save_current_results IoError written s s'"
  shows "saved_domains s' = saved_domains s \<and> current_domains s' = current_domains s
       \<and> current_domains s' - saved_domains s' \<noteq> {}"
  using assms by cases auto

lemma run_step_effect:
  assumes "run_step s s'"
  shows "current_domains s \<subseteq> current_domains s'
       \<and> saved_domains s \<subseteq> saved_domains s'
       \<and> saved_domains s' \<subseteq> saved_domains s \<union> current_domains s
       \<and> (\<forall>d\<in>current_domains s' - current_domains s. d \<noteq> [] \<and> strip d = d)
       \<and> (\<exists>added. file_text s' = file_text s @ added)"
  using assms
proof cases
  case (absorb data domains)
  then show ?thesis by (auto simp: file_text_def dest: extract_domains_trimmed)
next
  case (flush r written)
  from save_current_results_effect[OF this] show ?thesis by auto
qed

lemma run_step_preserves:
  assumes "run_step s s'" and "saved_domains s \<subseteq> current_domains s \<union> F"
  shows "saved_domains s' \<subseteq> current_domains s' \<union> F"
  using run_step_effect[OF assms(1)] assms(2) by blast

lemma run_invariant:
  assumes "rtranclp run_step s0 s"
  shows "saved_domains s \<subseteq> current_domains s \<union> saved_domains s0"
  using assms
proof (induction rule: rtranclp_induct)
  case base
  then show ?case by simp
next
  case (step y z)
  then show ?case using run_step_preserves by blast
qed







lemmas store_defs = store_one_new_def store_one_new_saved_def store_restart_def
  store_restart_read_def store_restart_absorbed_def store_restart_saved_def store_unread_def
  store_unread_absorbed_def store_unread_saved_def process_start_def
  initialize_saved_domains_def file_text_def record_text_def

lemma text_lines_example: "text_lines (''a.example'' @ [line_feed]) = [''a.example'']"
  by (simp add: text_lines_def)

lemma extract_page_b: "extract_domains_from_data page_b = Inr [''b.example'', ''a.example'']"
  by (simp add: page_b_def extract_domains_from_data_def branch_has_data_def branch_domains_def
        eand_def ebind_def strip_def is_space_def)


lemma example_save:
  "save_current_results IoOk [''b.example''] store_one_new store_one_new_saved"
proof -
  have "save_current_results IoOk [''b.example''] store_one_new
          (store_one_new\<lparr>out_file := Some (file_text store_one_new @ record_text [''b.example'']),
             saved_domains := saved_domains store_one_new
               \<union> (current_domains store_one_new - saved_domains store_one_new)\<rparr>)"
    by (rule save_current_results.appended) (auto simp: store_defs)
  moreover have
    "store_one_new\<lparr>out_file := Some (file_text store_one_new @ record_text [''b.example'']),
             saved_domains := saved_domains store_one_new
               \<union> (current_domains store_one_new - saved_domains store_one_new)\<rparr>
       = store_one_new_saved"
    by (auto simp: store_defs)
  ultimately show ?thesis by simp
qed

lemma example_save_again:
  "save_current_results IoOk [] store_one_new_saved store_one_new_saved"
  by (rule save_current_results.nothing_new) (auto simp: store_defs)

lemma example_open_failed: "save_current_results IoError [] store_one_new store_one_new"
  by (rule save_current_results.open_failed) (auto simp: store_defs)

lemma example_read: "initialize_saved_domains IoOk store_restart = store_restart_read"
  by (simp add: store_defs text_lines_def strip_def is_space_def)

lemma example_absorb: "run_step store_restart_read store_restart_absorbed"
proof -
  have "run_step store_restart_read
          (store_restart_read\<lparr>current_domains := current_domains store_restart_read
              \<union> set [''b.example'', ''a.example'']\<rparr>)"
    by (rule run_step.absorb[OF extract_page_b]) simp
  moreover have "store_restart_read\<lparr>current_domains := current_domains store_restart_read
              \<union> set [''b.example'', ''a.example'']\<rparr> = store_restart_absorbed"
    by (auto simp: store_defs)
  ultimately show ?thesis by simp
qed

lemma example_flush_save:
  "save_current_results IoOk [''b.example''] store_restart_absorbed store_restart_saved"
proof -
  have "save_current_results IoOk [''b.example''] store_restart_absorbed
          (store_restart_absorbed\<lparr>out_file :=
               Some (file_text store_restart_absorbed @ record_text [''b.example'']),
             saved_domains := saved_domains store_restart_absorbed
               \<union> (current_domains store_restart_absorbed
                    - saved_domains store_restart_absorbed)\<rparr>)"
    by (rule save_current_results.appended) (auto simp: store_defs)
  moreover have
    "store_restart_absorbed\<lparr>out_file :=
               Some (file_text store_restart_absorbed @ record_text [''b.example'']),
             saved_domains := saved_domains store_restart_absorbed
               \<union> (current_domains store_restart_absorbed
                    - saved_domains store_restart_absorbed)\<rparr>
       = store_restart_saved"
    by (auto simp: store_defs)
  ultimately show ?thesis by simp
qed

lemma example_flush: "run_step store_restart_absorbed store_restart_saved"
  using example_flush_save by (rule run_step.flush)

lemma example_run_to_absorbed:
  "rtranclp run_step
     (initialize_saved_domains IoOk (process_start (Some (''a.example'' @ [line_feed]))))
     store_restart_absorbed"
proof -
  have "initialize_saved_domains IoOk (process_start (Some (''a.example'' @ [line_feed])))
          = store_restart_read"
    using example_read by (simp add: store_restart_def)
  then show ?thesis using example_absorb by auto
qed

lemma example_run:
  "rtranclp run_step
     (initialize_saved_domains IoOk (process_start (Some (''a.example'' @ [line_feed]))))
     store_restart_saved"
  using example_run_to_absorbed example_flush by (rule rtranclp.rtrancl_into_rtrancl)





text \<open>
  Claim C5, as stated: the saved set is included in the collected set at every point of
  a run, the start-up reading of the existing file included.  Start-up fills
  \<open>saved_domains\<close> from the file and leaves \<open>current_domains\<close> empty: with a file of one
  line the inclusion fails right after start-up.
\<close>

theorem C5_counterexample:
  "\<not> saved_domains (initialize_saved_domains IoOk
          (process_start (Some (''a.example'' @ [line_feed])))) \<subseteq>
        current_domains (initialize_saved_domains IoOk
          (process_start (Some (''a.example'' @ [line_feed]))))"
  by (simp add: initialize_saved_domains_def process_start_def text_lines_def
        strip_def is_space_def)

text \<open>
  Claim C5, amended.  At every point of a run that begins with the start-up reading of
  the output file, every saved record is a collected record or a trimmed line of the file
  as it was at start-up; when start-up leaves \<open>saved_domains\<close> empty (no file, a read
  error, or no line other than blank ones) the saved set is included in the collected
  set throughout.  Every absorb and every save preserves the inclusion of the saved set
  in the collected set.
\<close>

theorem C5_saved_within_collected_or_file:
  "(rtranclp run_step (initialize_saved_domains r (process_start f)) s
    \<longrightarrow> saved_domains s
          \<subseteq> current_domains s
            \<union> set (map strip (text_lines (case f of None \<Rightarrow> [] | Some t \<Rightarrow> t))))
   \<and> (saved_domains (initialize_saved_domains r (process_start f)) = {}
       \<and> rtranclp run_step (initialize_saved_domains r (process_start f)) s
    \<longrightarrow> saved_domains s \<subseteq> current_domains s)
   \<and> (run_step s1 s2 \<and> saved_domains s1 \<subseteq> current_domains s1
    \<longrightarrow> saved_domains s2 \<subseteq> current_domains s2)"
proof (intro conjI impI)
  let ?s0 = "initialize_saved_domains r (process_start f)"
  assume "rtranclp run_step ?s0 s"
  from run_invariant[OF this]
  have "saved_domains s \<subseteq> current_domains s \<union> saved_domains ?s0" .
  moreover have "saved_domains ?s0
      \<subseteq> set (map strip (text_lines (case f of None \<Rightarrow> [] | Some t \<Rightarrow> t)))"
    by (auto simp: initialize_saved_domains_def process_start_def
        split: option.splits io_outcome.splits)
  ultimately show "saved_domains s
          \<subseteq> current_domains s
            \<union> set (map strip (text_lines (case f of None \<Rightarrow> [] | Some t \<Rightarrow> t)))"
    by blast
next
  assume "saved_domains (initialize_saved_domains r (process_start f)) = {}
       \<and> rtranclp run_step (initialize_saved_domains r (process_start f)) s"
  with run_invariant[of "initialize_saved_domains r (process_start f)" s]
  show "saved_domains s \<subseteq> current_domains s" by simp
next
  assume "run_step s1 s2 \<and> saved_domains s1 \<subseteq> current_domains s1"
  with run_step_preserves[of s1 s2 "{}"] show "saved_domains s2 \<subseteq> current_domains s2"
    by simp
qed

theorem C5_saved_within_collected_or_file_witness:
  "rtranclp run_step
     (initialize_saved_domains IoOk (process_start (Some (''a.example'' @ [line_feed]))))
     store_restart_saved
   \<and> saved_domains store_restart_saved
       \<subseteq> current_domains store_restart_saved
         \<union> set (map strip (text_lines (''a.example'' @ [line_feed])))
   \<and> saved_domains (initialize_saved_domains IoOk (process_start None)) = {}
   \<and> rtranclp run_step (initialize_saved_domains IoOk (process_start None))
       (initialize_saved_domains IoOk (process_start None))
   \<and> run_step store_restart_absorbed store_restart_saved
   \<and> saved_domains store_restart_absorbed \<subseteq> current_domains store_restart_absorbed
   \<and> saved_domains store_restart_saved \<subseteq> current_domains store_restart_saved"
  using C5_saved_within_collected_or_file[of IoOk "Some (''a.example'' @ [line_feed])"
          store_restart_saved store_restart_absorbed store_restart_saved]
    C5_saved_within_collected_or_file[of IoOk None
          "initialize_saved_domains IoOk (process_start None)"]
    example_run example_flush
  by (auto simp: store_defs text_lines_def strip_def is_space_def)


text \<open>
  Claim C6, as stated: each flush appends the set difference of collected and saved
  records and adds it to the saved records, so that a second flush with nothing newly
  collected writes nothing.  A flush that meets an I/O error ends in the \<^verbatim>\<open>except\<close>
  branch without touching \<open>saved_domains\<close>.  Below, the first flush cannot open the file
  and leaves the store as it was, with \<^verbatim>\<open>b.example\<close> collected and not saved; the
  second flush, with nothing collected in between, writes \<^verbatim>\<open>b.example\<close>.
\<close>

theorem C6_counterexample:
  "current_domains store_one_new - saved_domains store_one_new = {''b.example''}
   \<and> save_current_results IoError [] store_one_new store_one_new
   \<and> save_current_results IoOk [''b.example''] store_one_new store_one_new_saved
   \<and> file_text store_one_new_saved
       = file_text store_one_new @ ''b.example'' @ [line_feed]"
  using example_open_failed example_save by (auto simp: store_defs)

text \<open>
  Claim C6, amended.  A flush that meets no I/O error appends to the file the records of
  \<open>current_domains - saved_domains\<close>, each once and each followed by a line feed, and
  nothing else; it adds just these records to \<open>saved_domains\<close> and leaves
  \<open>current_domains\<close> alone.  A flush that meets an I/O error leaves both sets as they
  were, with records still collected and not saved.  A flush that follows a flush without
  I/O error, with nothing collected in between, writes no record and changes neither the
  file nor the sets.
\<close>

theorem C6_flush_appends_difference:
  "(save_current_results IoOk written s s'
    \<longrightarrow> file_text s' = file_text s @ record_text written
        \<and> set written = current_domains s - saved_domains s \<and> distinct written
        \<and> saved_domains s' = saved_domains s \<union> (current_domains s - saved_domains s)
        \<and> current_domains s' = current_domains s)
   \<and> (save_current_results IoError written s s'
    \<longrightarrow> saved_domains s' = saved_domains s \<and> current_domains s' = current_domains s
        \<and> current_domains s' - saved_domains s' \<noteq> {})
   \<and> (save_current_results IoOk written s s' \<and> save_current_results r written' s' s''
    \<longrightarrow> s'' = s' \<and> written' = [])"
  using save_current_results_ok[of written s s'] save_current_results_error[of written s s']
    save_current_results_idem[of written s s' r written' s'']
  by blast

theorem C6_flush_appends_difference_witness:
  "save_current_results IoOk [''b.example''] store_one_new store_one_new_saved
   \<and> file_text store_one_new_saved = file_text store_one_new @ record_text [''b.example'']
   \<and> set [''b.example''] = current_domains store_one_new - saved_domains store_one_new
   \<and> saved_domains store_one_new_saved
       = saved_domains store_one_new
           \<union> (current_domains store_one_new - saved_domains store_one_new)
   \<and> save_current_results IoOk [] store_one_new_saved store_one_new_saved
   \<and> save_current_results IoError [] store_one_new store_one_new
   \<and> current_domains store_one_new - saved_domains store_one_new \<noteq> {}"
  using C6_flush_appends_difference[of "[''b.example'']" store_one_new store_one_new_saved
          IoOk "[]" store_one_new_saved]
    C6_flush_appends_difference[of "[]" store_one_new store_one_new]
    example_save example_save_again example_open_failed
  by (auto simp: store_defs)




end
